theory Spec2Isabelle
  imports Main "HOL-Library.Word" "HOL-Library.Sublist"
begin

section \<open>Text and bytes\<close>

text \<open>
  A Python \<open>str\<close> is a sequence of Unicode code points, a \<open>bytes\<close> value a sequence of
  octets. String literals of the source are written \<open>str ''...''\<close>.
\<close>

type_synonym codepoint = nat
type_synonym pystr = "codepoint list"
type_synonym byte = "8 word"
type_synonym bytes = "byte list"

definition str :: "string \<Rightarrow> pystr" where
  "str s = map of_char s"

text \<open>The exceptions that the modelled code raises or lets through.\<close>

datatype error =
    SerialException pystr
  | FileNotFoundError pystr
  | UnicodeEncodeError
  | UnicodeDecodeError
  | HandlerException pystr

subsection \<open>\<open>str.encode('utf-8')\<close> and \<open>bytes.decode('utf-8')\<close>\<close>

definition is_scalar :: "codepoint \<Rightarrow> bool" where
  "is_scalar c = (c < 0xD800 \<or> (0xDFFF < c \<and> c < 0x110000))"

definition utf8_char :: "codepoint \<Rightarrow> bytes" where
  "utf8_char c =
     (if c < 0x80 then [of_nat c]
      else if c < 0x800 then [of_nat (0xC0 + c div 64), of_nat (0x80 + c mod 64)]
      else if c < 0x10000 then
        [of_nat (0xE0 + c div 4096), of_nat (0x80 + (c div 64) mod 64), of_nat (0x80 + c mod 64)]
      else
        [of_nat (0xF0 + c div 262144), of_nat (0x80 + (c div 4096) mod 64),
         of_nat (0x80 + (c div 64) mod 64), of_nat (0x80 + c mod 64)])"

text \<open>
  Strict encoding: a lone surrogate (and anything that is not a code point at all) raises
  \<open>UnicodeEncodeError\<close>.
\<close>

fun encode :: "pystr \<Rightarrow> error + bytes" where
  "encode [] = Inr []"
| "encode (c # cs) =
     (if \<not> is_scalar c then Inl UnicodeEncodeError
      else case encode cs of Inl e \<Rightarrow> Inl e | Inr bs \<Rightarrow> Inr (utf8_char c @ bs))"

definition is_cont :: "byte \<Rightarrow> bool" where
  "is_cont b = (0x80 \<le> unat b \<and> unat b < 0xC0)"

definition cont_bits :: "byte \<Rightarrow> nat" where
  "cont_bits b = unat b - 0x80"

text \<open>
  Strict decoding: a stray continuation byte, a truncated or overlong sequence, an encoded
  surrogate and a value above \<open>0x10FFFF\<close> raise \<open>UnicodeDecodeError\<close>.
\<close>

fun decode :: "bytes \<Rightarrow> error + pystr" where
  "decode [] = Inr []"
| "decode (b # bs) =
     (let n = unat b in
      if n < 0x80 then
        (case decode bs of Inl e \<Rightarrow> Inl e | Inr cs \<Rightarrow> Inr (n # cs))
      else if 0xC0 \<le> n \<and> n < 0xE0 then
        (case bs of
           b1 # r \<Rightarrow>
             (let c = (n - 0xC0) * 64 + cont_bits b1 in
              if is_cont b1 \<and> 0x80 \<le> c then
                (case decode r of Inl e \<Rightarrow> Inl e | Inr cs \<Rightarrow> Inr (c # cs))
              else Inl UnicodeDecodeError)
         | _ \<Rightarrow> Inl UnicodeDecodeError)
      else if 0xE0 \<le> n \<and> n < 0xF0 then
        (case bs of
           b1 # b2 # r \<Rightarrow>
             (let c = (n - 0xE0) * 4096 + cont_bits b1 * 64 + cont_bits b2 in
              if is_cont b1 \<and> is_cont b2 \<and> 0x800 \<le> c \<and> is_scalar c then
                (case decode r of Inl e \<Rightarrow> Inl e | Inr cs \<Rightarrow> Inr (c # cs))
              else Inl UnicodeDecodeError)
         | _ \<Rightarrow> Inl UnicodeDecodeError)
      else if 0xF0 \<le> n \<and> n < 0xF8 then
        (case bs of
           b1 # b2 # b3 # r \<Rightarrow>
             (let c = (n - 0xF0) * 262144 + cont_bits b1 * 4096 + cont_bits b2 * 64 + cont_bits b3 in
              if is_cont b1 \<and> is_cont b2 \<and> is_cont b3 \<and> 0x10000 \<le> c \<and> is_scalar c then
                (case decode r of Inl e \<Rightarrow> Inl e | Inr cs \<Rightarrow> Inr (c # cs))
              else Inl UnicodeDecodeError)
         | _ \<Rightarrow> Inl UnicodeDecodeError)
      else Inl UnicodeDecodeError)"

subsection \<open>The \<open>str\<close> methods used by the link\<close>

text \<open>\<open>sub in s\<close>: \<open>sub\<close> occurs in \<open>s\<close> as a contiguous substring.\<close>

fun contains :: "pystr \<Rightarrow> pystr \<Rightarrow> bool" where
  "contains sub [] = (sub = [])"
| "contains sub (c # cs) = (prefix sub (c # cs) \<or> contains sub cs)"

text \<open>
  \<open>s.split(sep)\<close> for a non-empty separator: the pieces between the non-overlapping
  occurrences of \<open>sep\<close>, found left to right. The result is never the empty list. (Python
  raises \<open>ValueError\<close> for an empty separator; the link only passes the literals \<open>'^^'\<close>,
  \<open>','\<close> and \<open>'\n\r'\<close>.)
\<close>

function split :: "pystr \<Rightarrow> pystr \<Rightarrow> pystr list" where
  "split sep [] = [[]]"
| "split sep (c # cs) =
     (if prefix sep (c # cs) then [] # split sep (drop (length sep - 1) cs)
      else (case split sep cs of [] \<Rightarrow> [[c]] | r # rs \<Rightarrow> (c # r) # rs))"
  by pat_completeness auto
termination
  by (relation "measure (\<lambda>(sep, s). length s)") auto

text \<open>
  \<open>str.isspace\<close> on one code point: the characters that \<open>rstrip()\<close> without argument
  removes.
\<close>

definition isspace :: "codepoint \<Rightarrow> bool" where
  "isspace c =
     ((0x09 \<le> c \<and> c \<le> 0x0D) \<or> (0x1C \<le> c \<and> c \<le> 0x20) \<or> c = 0x85 \<or> c = 0xA0
      \<or> c = 0x1680 \<or> (0x2000 \<le> c \<and> c \<le> 0x200A) \<or> c = 0x2028 \<or> c = 0x2029
      \<or> c = 0x202F \<or> c = 0x205F \<or> c = 0x3000)"

definition rstrip :: "pystr \<Rightarrow> pystr" where
  "rstrip s = rev (dropWhile isspace (rev s))"

text \<open>\<open>s.rstrip(chars)\<close>: every trailing character that is in \<open>chars\<close> is removed.\<close>

definition rstrip_chars :: "pystr \<Rightarrow> pystr \<Rightarrow> pystr" where
  "rstrip_chars chars s = rev (dropWhile (\<lambda>c. c \<in> set chars) (rev s))"

text \<open>
  \<open>s.partition(sep)\<close> for a one-character separator: the text before the first occurrence,
  the separator, the text after it; without an occurrence \<open>(s, '', '')\<close>.
\<close>

fun partition_at :: "codepoint \<Rightarrow> pystr \<Rightarrow> pystr \<times> pystr \<times> pystr" where
  "partition_at sep [] = ([], [], [])"
| "partition_at sep (c # cs) =
     (if c = sep then ([], [sep], cs)
      else (case partition_at sep cs of (h, m, t) \<Rightarrow> (c # h, m, t)))"

text \<open>\<open>any(t3)\<close> on a triple of strings: one of them is non-empty.\<close>

definition any3 :: "pystr \<times> pystr \<times> pystr \<Rightarrow> bool" where
  "any3 t3 = (case t3 of (h, m, t) \<Rightarrow> h \<noteq> [] \<or> m \<noteq> [] \<or> t \<noteq> [])"

text \<open>
  \<open>f.readlines()\<close> on a file opened with \<open>open(fname)\<close>, that is in text mode with
  universal newlines. The argument is the text of the file as decoded, before the newline
  translation: a line ends at LF, at CR LF and at a CR that no LF follows, and each of the
  three is returned as \<open>'\n'\<close> at the end of its line (the last line has none when the text
  does not end with one).
\<close>

fun readlines :: "pystr \<Rightarrow> pystr list" where
  "readlines [] = []"
| "readlines (c # cs) =
     (if c = 10 then [10] # readlines cs
      else if c = 13 then
        (case cs of
           [] \<Rightarrow> [[10]]
         | d # r \<Rightarrow> if d = 10 then [10] # readlines r else [10] # readlines cs)
      else (case readlines cs of [] \<Rightarrow> [[c]] | l # ls \<Rightarrow> (c # l) # ls))"

section \<open>The transport bridge (\<open>websocketserial.py\<close>)\<close>

text \<open>
  The fields of \<open>WebSocketSerialThreaded\<close> that its methods read or write. The two queues
  hold chunks (\<open>bytes\<close> values), oldest first. \<open>timeout\<close> is in milliseconds, \<open>None\<close> for
  a bridge built without one. \<open>thread\<close> tells whether \<open>_thread\<close> is set.
\<close>

record WebSocketSerialThreaded =
  url :: pystr
  timeout :: "nat option"
  is_open :: bool
  read_queue :: "bytes list"
  write_queue :: "bytes list"
  thread :: bool
  stop_event :: bool

definition new_bridge :: "pystr \<Rightarrow> nat option \<Rightarrow> WebSocketSerialThreaded" where
  "new_bridge u t =
     \<lparr>url = u, timeout = t, is_open = False, read_queue = [], write_queue = [],
      thread = False, stop_event = False\<rparr>"

text \<open>
  What the I/O thread does to the bridge between two calls of the consumer: the receiver
  puts a received message into the inbound queue, and the end of the websocket loop clears
  \<open>_is_open\<close>.
\<close>

definition receiver_put :: "bytes \<Rightarrow> WebSocketSerialThreaded \<Rightarrow> WebSocketSerialThreaded" where
  "receiver_put received b = b\<lparr>read_queue := read_queue b @ [received]\<rparr>"

definition websocket_loop_finished :: "WebSocketSerialThreaded \<Rightarrow> WebSocketSerialThreaded" where
  "websocket_loop_finished b = b\<lparr>is_open := False\<rparr>"

text \<open>
  \<open>open()\<close>. The argument \<open>established\<close> is the environment's answer: whether the
  websocket connection came up during the grace period of the call.
\<close>

definition bridge_open ::
  "bool \<Rightarrow> WebSocketSerialThreaded \<Rightarrow> error option \<times> WebSocketSerialThreaded" where
  "bridge_open established b =
     (if is_open b \<or> thread b then (None, b)
      else
        (let b1 = b\<lparr>stop_event := False, thread := True, is_open := established\<rparr> in
         if \<not> is_open b1 \<and> \<not> stop_event b1
         then (Some (SerialException (str ''Failed to open WebSocket connection to '' @ url b1)), b1)
         else (None, b1)))"

definition bridge_close :: "WebSocketSerialThreaded \<Rightarrow> WebSocketSerialThreaded" where
  "bridge_close b =
     (if is_open b \<or> thread b then b\<lparr>stop_event := True, thread := False, is_open := False\<rparr>
      else b)"

text \<open>\<open>write(data)\<close> with a \<open>bytes\<close> argument: the chunk is put into the outbound queue.\<close>

definition bridge_write ::
  "bytes \<Rightarrow> WebSocketSerialThreaded \<Rightarrow> (error + nat) \<times> WebSocketSerialThreaded" where
  "bridge_write data b =
     (if \<not> is_open b then (Inl (SerialException (str ''Port is not open'')), b)
      else (Inr (length data), b\<lparr>write_queue := write_queue b @ [data]\<rparr>))"

text \<open>
  The loop of \<open>read(size)\<close>: up to \<open>size\<close> times, take one item from the inbound queue and
  append it to \<open>data\<close>. The queue argument holds the chunks that arrive during the call.
  On an empty queue, \<open>get\<close> raises \<open>queue.Empty\<close> after the timeout, which ends the loop;
  without a timeout it waits forever, which is the result \<open>None\<close>.
\<close>

fun read_loop :: "nat \<Rightarrow> nat option \<Rightarrow> bytes list \<Rightarrow> bytes \<Rightarrow> (bytes \<times> bytes list) option" where
  "read_loop 0 t q data = Some (data, q)"
| "read_loop (Suc n) t [] data = (case t of None \<Rightarrow> None | Some ms \<Rightarrow> Some (data, []))"
| "read_loop (Suc n) t (byte # q) data = read_loop n t q (data @ byte)"

definition bridge_read ::
  "nat \<Rightarrow> WebSocketSerialThreaded \<Rightarrow> ((error + bytes) \<times> WebSocketSerialThreaded) option" where
  "bridge_read count b =
     (if \<not> is_open b then Some (Inl (SerialException (str ''Port is not open'')), b)
      else (case read_loop count (timeout b) (read_queue b) [] of
              None \<Rightarrow> None
            | Some (data, q) \<Rightarrow> Some (Inr data, b\<lparr>read_queue := q\<rparr>)))"

section \<open>The link (\<open>viii.py\<close>)\<close>

text \<open>
  A subscriber is a callable. It is modelled by an identity and by what a call with given
  arguments does: return, or raise an exception (an instance of \<open>Exception\<close>, the class that
  the \<open>except\<close> clause of \<open>raise_event\<close> names). Subscribers do not touch the link.
\<close>

datatype arg = AStr pystr | AList "pystr list" | AExc error

datatype outcome = Returns | Raises error

record handler =
  hid :: nat
  call :: "arg list \<Rightarrow> outcome"

text \<open>
  What an observer of the link sees, in order: a call of \<open>raise_event\<close>, a call of a
  subscriber, an error written to the log, a chunk handed to the bridge, an attempt to open
  a bridge (with the environment's answer), a sleep (in milliseconds).
\<close>

datatype obs =
    Raised pystr "arg list"
  | Called nat "arg list"
  | HandlerError pystr nat error
  | LostConnection error
  | Wrote bytes
  | OpenAttempt bool
  | Slept nat

record Deviceviii =
  serial :: "WebSocketSerialThreaded option"
  is_connected :: bool
  event_handlers :: "pystr \<rightharpoonup> handler list"
  trace :: "obs list"

definition init :: Deviceviii where
  "init = \<lparr>serial = None, is_connected = False, event_handlers = Map.empty, trace = []\<rparr>"

definition observe :: "obs list \<Rightarrow> Deviceviii \<Rightarrow> Deviceviii" where
  "observe os st = st\<lparr>trace := trace st @ os\<rparr>"

text \<open>
  A method returns the exception it raised, if any, and the state it left. \<open>seq\<close> runs the
  second statement only when the first one returned.
\<close>

type_synonym stmt = "Deviceviii \<Rightarrow> error option \<times> Deviceviii"

definition seq :: "stmt \<Rightarrow> stmt \<Rightarrow> stmt" where
  "seq m1 m2 st = (case m1 st of (Some e, st1) \<Rightarrow> (Some e, st1) | (None, st1) \<Rightarrow> m2 st1)"

definition sleep :: "nat \<Rightarrow> stmt" where
  "sleep ms st = (None, observe [Slept ms] st)"

subsection \<open>The dispatcher\<close>

text \<open>The \<open>for\<close> loop of \<open>raise_event\<close>, with the \<open>try\<close> around each call.\<close>

fun run_handlers :: "pystr \<Rightarrow> handler list \<Rightarrow> arg list \<Rightarrow> Deviceviii \<Rightarrow> error option \<times> Deviceviii" where
  "run_handlers event [] args st = (None, st)"
| "run_handlers event (h # hs) args st =
     (case call h args of
        Returns \<Rightarrow> run_handlers event hs args (observe [Called (hid h) args] st)
      | Raises exc \<Rightarrow>
          run_handlers event hs args
            (observe [Called (hid h) args, HandlerError event (hid h) exc] st))"

definition raise_event :: "pystr \<Rightarrow> arg list \<Rightarrow> stmt" where
  "raise_event event args st =
     (let st1 = observe [Raised event args] st in
      case event_handlers st1 event of
        None \<Rightarrow> (None, st1)
      | Some handlers \<Rightarrow> run_handlers event handlers args st1)"

definition replace_handlers :: "(pystr \<rightharpoonup> handler list) \<Rightarrow> stmt" where
  "replace_handlers handlers st = (None, st\<lparr>event_handlers := handlers\<rparr>)"

subsection \<open>Connecting\<close>

definition connect :: "bool \<Rightarrow> stmt" where
  "connect established st =
     (let s = new_bridge (str ''ws://localhost:8765'') (Some 500);
          st1 = observe [OpenAttempt established] st
      in case bridge_open established s of
           (Some e, s1) \<Rightarrow> (Some e, st1\<lparr>serial := Some s1\<rparr>)
         | (None, s1) \<Rightarrow> (None, st1\<lparr>serial := Some s1\<rparr>))"

definition disconnect :: stmt where
  "disconnect st =
     (let st1 = st\<lparr>is_connected := False\<rparr> in
      case serial st1 of
        None \<Rightarrow> (None, st1)
      | Some s \<Rightarrow> (None, st1\<lparr>serial := Some (bridge_close s)\<rparr>))"

definition reconnect :: "bool \<Rightarrow> bool \<Rightarrow> stmt" where
  "reconnect established err_event st =
     (case connect established st of
        (None, st1) \<Rightarrow>
          (case serial st1 of
             None \<Rightarrow> (None, st1)
           | Some s \<Rightarrow>
               if is_open s then raise_event (str ''connect'') [] (st1\<lparr>is_connected := True\<rparr>)
               else (None, st1))
      | (Some exc, st1) \<Rightarrow>
          if is_connected st1 \<or> err_event
          then raise_event (str ''connect_err'') [AExc exc] (st1\<lparr>is_connected := False\<rparr>)
          else (None, st1))"

subsection \<open>Writing\<close>

definition writebin :: "bytes \<Rightarrow> stmt" where
  "writebin b st =
     (case serial st of
        None \<Rightarrow> (None, st)
      | Some s \<Rightarrow>
          (let b1 = (if length b mod 64 = 0 then b @ [0x0A] else b) in
           case bridge_write b1 s of
             (Inl e, s1) \<Rightarrow> (Some e, st\<lparr>serial := Some s1\<rparr>)
           | (Inr n, s1) \<Rightarrow> (None, observe [Wrote b1] (st\<lparr>serial := Some s1\<rparr>))))"

text \<open>The method \<open>write\<close>.\<close>

definition write_str :: "pystr \<Rightarrow> stmt" where
  "write_str s st = (case encode s of Inl e \<Rightarrow> (Some e, st) | Inr b \<Rightarrow> writebin b st)"

definition writeline :: "pystr \<Rightarrow> stmt" where
  "writeline line = write_str (line @ [13, 10])"

text \<open>The \<open>for\<close> loop of \<open>writefile\<close> over the lines that \<open>readlines\<close> returned.\<close>

fun writelines :: "pystr list \<Rightarrow> stmt" where
  "writelines [] st = (None, st)"
| "writelines (line # ls) st = seq (writeline (rstrip line)) (seq (sleep 1) (writelines ls)) st"

text \<open>
  The file system is a map from a path to the text of the file there, as decoded and
  before the newline translation of text mode (which \<open>readlines\<close> does); \<open>open\<close> of a
  path outside its domain raises \<open>FileNotFoundError\<close>.
\<close>

definition writefile :: "(pystr \<rightharpoonup> pystr) \<Rightarrow> pystr \<Rightarrow> stmt" where
  "writefile fs fname st =
     (case fs fname of
        None \<Rightarrow> (Some (FileNotFoundError fname), st)
      | Some text \<Rightarrow> writelines (readlines text) st)"

text \<open>The method \<open>_upload\<close>.\<close>

definition upload_inner :: "(pystr \<rightharpoonup> pystr) \<Rightarrow> pystr \<Rightarrow> pystr \<Rightarrow> pystr \<Rightarrow> stmt" where
  "upload_inner fs fname event end_marker =
     seq (raise_event event [AStr fname])
    (seq (writeline (str ''^^s''))
    (seq (sleep 100)
    (seq (writefile fs fname)
    (seq (sleep 100)
    (seq (writeline end_marker)
    (seq (sleep 100)
         (writeline (str ''^^z''))))))))"

definition execute :: "(pystr \<rightharpoonup> pystr) \<Rightarrow> pystr \<Rightarrow> stmt" where
  "execute fs fname = upload_inner fs fname (str ''running'') (str ''^^e'')"

definition upload :: "(pystr \<rightharpoonup> pystr) \<Rightarrow> pystr \<Rightarrow> stmt" where
  "upload fs fname = upload_inner fs fname (str ''uploading'') (str ''^^w'')"

subsection \<open>Reading and the background pump\<close>

definition readbin :: "nat \<Rightarrow> Deviceviii \<Rightarrow> ((error + bytes) \<times> Deviceviii) option" where
  "readbin count st =
     (case serial st of
        None \<Rightarrow> Some (Inr [], st)
      | Some s \<Rightarrow>
          (case bridge_read count s of
             None \<Rightarrow> None
           | Some (Inl e, s1) \<Rightarrow> Some (Inl e, st\<lparr>serial := Some s1\<rparr>)
           | Some (Inr b, s1) \<Rightarrow> Some (Inr b, st\<lparr>serial := Some s1\<rparr>)))"

definition read :: "nat \<Rightarrow> Deviceviii \<Rightarrow> ((error + pystr) \<times> Deviceviii) option" where
  "read count st =
     (case readbin count st of
        None \<Rightarrow> None
      | Some (Inl e, st1) \<Rightarrow> Some (Inl e, st1)
      | Some (Inr b, st1) \<Rightarrow> Some (decode b, st1))"

text \<open>The \<open>for\<close> loop of \<open>process_line\<close> over the segments.\<close>

fun process_cmds :: "pystr \<Rightarrow> pystr list \<Rightarrow> stmt" where
  "process_cmds line [] st = (None, st)"
| "process_cmds line (cmd # cmds) st =
     (let t3 = partition_at 40 (rstrip cmd) in
      if \<not> any3 t3 then process_cmds line cmds st
      else
        (let evt = fst t3;
             args = split (str '','') (rstrip_chars (str '')'') (snd (snd t3)))
         in seq (raise_event (str ''iii_event'') [AStr line, AStr evt, AList args])
                (process_cmds line cmds) st))"

definition process_line :: "pystr \<Rightarrow> stmt" where
  "process_line line st =
     (if contains (str ''^^'') line then process_cmds line (split (str ''^^'') line) st
      else if length line > 0 then raise_event (str ''iii_output'') [AStr line] st
      else (None, st))"

fun process_lines :: "pystr list \<Rightarrow> stmt" where
  "process_lines [] st = (None, st)"
| "process_lines (line # ls) st = seq (process_line line) (process_lines ls) st"

text \<open>
  One iteration of the \<open>while True\<close> loop of \<open>read_forever\<close>. \<open>established\<close> is the
  environment's answer to the connection attempt that the iteration makes if the read fails.
  The result is \<open>None\<close> when the iteration does not end.
\<close>

definition read_forever_body :: "bool \<Rightarrow> Deviceviii \<Rightarrow> Deviceviii option" where
  "read_forever_body established st =
     (case read 10000 st of
        None \<Rightarrow> None
      | Some (Inr r0, st1) \<Rightarrow>
          (let r = [] in
           case (if length r > 0 then process_lines (split [10, 13] r) st1 else (None, st1)) of
             (None, st2) \<Rightarrow> Some (snd (sleep 1 st2))
           | (Some exc, st2) \<Rightarrow>
               (let st3 = (if is_connected st2 then observe [LostConnection exc] st2 else st2)
                in Some (snd (sleep 100 (snd (reconnect established False st3))))))
      | Some (Inl exc, st1) \<Rightarrow>
          (let st3 = (if is_connected st1 then observe [LostConnection exc] st1 else st1)
           in Some (snd (sleep 100 (snd (reconnect established False st3))))))"

text \<open>
  The loop never ends by itself. A finite run of it: before each iteration the I/O thread
  may have put messages into the inbound queue and may have lost the connection.
\<close>

record iteration =
  received :: "bytes list"
  lost :: bool
  reconnects :: bool

definition io_thread :: "iteration \<Rightarrow> Deviceviii \<Rightarrow> Deviceviii" where
  "io_thread it st =
     (case serial st of
        None \<Rightarrow> st
      | Some s \<Rightarrow>
          (let s1 = (if is_open s then fold receiver_put (received it) s else s);
               s2 = (if lost it then websocket_loop_finished s1 else s1)
           in st\<lparr>serial := Some s2\<rparr>))"

fun read_forever :: "iteration list \<Rightarrow> Deviceviii \<Rightarrow> Deviceviii option" where
  "read_forever [] st = Some st"
| "read_forever (it # its) st =
     (case read_forever_body (reconnects it) (io_thread it st) of
        None \<Rightarrow> None
      | Some st1 \<Rightarrow> read_forever its st1)"

section \<open>Describing what the link does\<close>

text \<open>
  The definitions of this section are not part of the program: they name what the
  properties below talk about.
\<close>

subsection \<open>Dispatch\<close>

text \<open>
  What one subscriber contributes to the trace when an event is raised: it is called, and
  if it raises, the error is logged. \<open>raised\<close> is the whole trace of one \<open>raise_event\<close>:
  the call itself, then the subscribers of the event in registration order.
\<close>

definition delivery :: "pystr \<Rightarrow> arg list \<Rightarrow> handler \<Rightarrow> obs list" where
  "delivery event args h =
     Called (hid h) args #
     (case call h args of Returns \<Rightarrow> [] | Raises exc \<Rightarrow> [HandlerError event (hid h) exc])"

definition subscribers :: "Deviceviii \<Rightarrow> pystr \<Rightarrow> handler list" where
  "subscribers st event = (case event_handlers st event of None \<Rightarrow> [] | Some hs \<Rightarrow> hs)"

definition raised :: "Deviceviii \<Rightarrow> pystr \<Rightarrow> arg list \<Rightarrow> obs list" where
  "raised st event args = Raised event args # concat (map (delivery event args) (subscribers st event))"

text \<open>The subscribers called in a trace, the events raised in it, by name, and the
  structured events (name and argument list of each \<open>iii_event\<close>) raised in it.\<close>

fun called :: "obs list \<Rightarrow> nat list" where
  "called [] = []"
| "called (Called i args # os) = i # called os"
| "called (x # os) = called os"

fun raised_names :: "obs list \<Rightarrow> pystr list" where
  "raised_names [] = []"
| "raised_names (Raised ev args # os) = ev # raised_names os"
| "raised_names (x # os) = raised_names os"

fun emitted :: "obs list \<Rightarrow> (pystr \<times> pystr list) list" where
  "emitted [] = []"
| "emitted (x # os) =
     (case x of
        Raised ev [AStr line, AStr evt, AList args] \<Rightarrow>
          if ev = str ''iii_event'' then [(evt, args)] else []
      | _ \<Rightarrow> []) @ emitted os"

text \<open>The names of the events raised since an earlier state, in the state a step led to.\<close>

definition events_since :: "Deviceviii \<Rightarrow> Deviceviii option \<Rightarrow> pystr list option" where
  "events_since st r = map_option (\<lambda>st2. raised_names (drop (length (trace st)) (trace st2))) r"

text \<open>The arguments of the structured event that \<open>process_line\<close> raises for a segment.\<close>

definition segment_event :: "pystr \<Rightarrow> pystr \<Rightarrow> arg list" where
  "segment_event line seg =
     [AStr line,
      AStr (takeWhile (\<lambda>c. c \<noteq> 40) (rstrip seg)),
      AList (split (str '','')
               (rstrip_chars (str '')'') (drop 1 (dropWhile (\<lambda>c. c \<noteq> 40) (rstrip seg)))))]"

subsection \<open>Bytes on the wire\<close>

text \<open>
  The UTF-8 encoding of a text as a total function (it agrees with \<open>encode\<close> on every
  text that \<open>encode\<close> accepts); the chunk that \<open>writebin\<close> hands to the bridge for given
  bytes; the chunk of one \<open>writeline\<close>.
\<close>

definition utf8 :: "pystr \<Rightarrow> bytes" where
  "utf8 s = concat (map utf8_char s)"

definition padded :: "bytes \<Rightarrow> bytes" where
  "padded b = (if length b mod 64 = 0 then b @ [0x0A] else b)"

definition wire :: "pystr \<Rightarrow> bytes" where
  "wire line = padded (utf8 line @ [0x0D, 0x0A])"

text \<open>
  The link holds a bridge that is open; it holds a bridge that is not open. (Neither holds
  for a link without a bridge.)
\<close>

definition link_open :: "Deviceviii \<Rightarrow> bool" where
  "link_open st = (case serial st of None \<Rightarrow> False | Some s \<Rightarrow> is_open s)"

definition link_closed :: "Deviceviii \<Rightarrow> bool" where
  "link_closed st = (case serial st of None \<Rightarrow> False | Some s \<Rightarrow> \<not> is_open s)"

text \<open>The state with chunks appended to the outbound queue; the outbound queue of a state.\<close>

definition enqueued :: "bytes list \<Rightarrow> Deviceviii \<Rightarrow> Deviceviii" where
  "enqueued chunks st =
     st\<lparr>serial := map_option (\<lambda>s. s\<lparr>write_queue := write_queue s @ chunks\<rparr>) (serial st)\<rparr>"

definition outbound :: "Deviceviii \<Rightarrow> bytes list" where
  "outbound st = (case serial st of None \<Rightarrow> [] | Some s \<Rightarrow> write_queue s)"

definition not_open :: error where
  "not_open = SerialException (str ''Port is not open'')"

text \<open>The trace and the chunks of a whole transfer of the lines \<open>ls\<close>.\<close>

definition paced :: "pystr list \<Rightarrow> obs list" where
  "paced ls = concat (map (\<lambda>l. [Wrote (wire (rstrip l)), Slept 1]) ls)"

definition upload_obs :: "pystr list \<Rightarrow> pystr \<Rightarrow> obs list" where
  "upload_obs ls end_marker =
     [Wrote (wire (str ''^^s'')), Slept 100] @ paced ls @
     [Slept 100, Wrote (wire end_marker), Slept 100, Wrote (wire (str ''^^z''))]"

definition upload_frames :: "pystr list \<Rightarrow> pystr \<Rightarrow> bytes list" where
  "upload_frames ls end_marker =
     wire (str ''^^s'') # map (\<lambda>l. wire (rstrip l)) ls @ [wire end_marker, wire (str ''^^z'')]"

subsection \<open>Connection attempts\<close>

text \<open>The bridge that \<open>connect\<close> leaves in the link, and the error of a failed attempt.\<close>

definition attempted :: "bool \<Rightarrow> WebSocketSerialThreaded" where
  "attempted established =
     (new_bridge (str ''ws://localhost:8765'') (Some 500))
       \<lparr>stop_event := False, thread := True, is_open := established\<rparr>"

definition open_failed :: error where
  "open_failed =
     SerialException (str ''Failed to open WebSocket connection to '' @ str ''ws://localhost:8765'')"

section \<open>The specification's wording\<close>

text \<open>
  Two descriptions taken from the specification rather than from the code, to compare the
  code with. The first is the transfer as a sequence of writes, each the text followed by
  the line terminator and nothing else.
\<close>

definition claimed_upload :: "pystr list \<Rightarrow> pystr \<Rightarrow> bytes list" where
  "claimed_upload ls end_marker =
     map (\<lambda>t. utf8 (t @ [13, 10])) (str ''^^s'' # ls @ [end_marker, str ''^^z''])"

text \<open>
  The second is the tokenizer: the name of a segment is the trimmed text before its first
  open parenthesis, the arguments are the rest, one trailing close parenthesis removed,
  split on commas; a segment with empty name and empty argument text is dropped.
\<close>

definition strip :: "pystr \<Rightarrow> pystr" where
  "strip s = dropWhile isspace (rstrip s)"

definition rstrip_one :: "codepoint \<Rightarrow> pystr \<Rightarrow> pystr" where
  "rstrip_one c s = (if s \<noteq> [] \<and> last s = c then butlast s else s)"

definition claimed_name :: "pystr \<Rightarrow> pystr" where
  "claimed_name seg = strip (takeWhile (\<lambda>c. c \<noteq> 40) seg)"

definition claimed_argtext :: "pystr \<Rightarrow> pystr" where
  "claimed_argtext seg = drop 1 (dropWhile (\<lambda>c. c \<noteq> 40) seg)"

definition claimed_events :: "pystr \<Rightarrow> (pystr \<times> pystr list) list" where
  "claimed_events line =
     map (\<lambda>seg. (claimed_name seg, split (str '','') (rstrip_one 41 (claimed_argtext seg))))
       (filter (\<lambda>seg. \<not> (claimed_name seg = [] \<and> claimed_argtext seg = []))
          (split (str ''^^'') line))"

section \<open>A session\<close>

text \<open>
  Concrete states and inputs, all reached by running the program: a table with a
  subscriber that raises and one that returns; the link after its first successful
  \<open>reconnect\<close>; the same link after the I/O thread lost the connection; the same link after
  the I/O thread received one message; a script of three lines, a script whose only line
  is 62 characters long, and a script of two lines of which the first ends with a lone CR.
\<close>

definition failing :: handler where
  "failing = \<lparr>hid = 1, call = (\<lambda>args. Raises (HandlerException (str ''boom'')))\<rparr>"

definition printing :: handler where
  "printing = \<lparr>hid = 2, call = (\<lambda>args. Returns)\<rparr>"

definition repl_handlers :: "pystr \<rightharpoonup> handler list" where
  "repl_handlers =
     [str ''connect'' \<mapsto> [printing], str ''connect_err'' \<mapsto> [printing],
      str ''uploading'' \<mapsto> [failing, printing], str ''iii_event'' \<mapsto> [printing]]"

definition connected :: Deviceviii where
  "connected = snd (reconnect True True (snd (replace_handlers repl_handlers init)))"

definition dropped :: Deviceviii where
  "dropped = io_thread \<lparr>received = [], lost = True, reconnects = False\<rparr> connected"

definition receiving :: Deviceviii where
  "receiving =
     io_thread \<lparr>received = [utf8 (str ''^^clear()'')], lost = False, reconnects = False\<rparr> connected"

definition script :: pystr where
  "script = str ''x=1'' @ [10] @ str ''y=2  '' @ [10] @ str ''z()'' @ [10]"

definition files :: "pystr \<rightharpoonup> pystr" where
  "files =
     [str ''a.lua'' \<mapsto> script, str ''wide.lua'' \<mapsto> replicate 62 97,
      str ''cr.lua'' \<mapsto> [97, 13, 98, 10]]"

section \<open>Facts about the model\<close>

subsection \<open>The trace and the outbound queue\<close>

lemma observe_nil [simp]: "observe [] st = st"
  by (simp add: observe_def)

lemma observe_observe [simp]: "observe b (observe a st) = observe (a @ b) st"
  by (simp add: observe_def)

lemma observe_fields [simp]:
  "serial (observe os st) = serial st"
  "is_connected (observe os st) = is_connected st"
  "event_handlers (observe os st) = event_handlers st"
  "trace (observe os st) = trace st @ os"
  by (simp_all add: observe_def)

lemma enqueued_nil [simp]: "enqueued [] st = st"
  by (cases "serial st") (simp_all add: enqueued_def)

lemma enqueued_enqueued [simp]: "enqueued b (enqueued a st) = enqueued (a @ b) st"
  by (cases "serial st") (simp_all add: enqueued_def)

lemma enqueued_observe [simp]: "enqueued a (observe os st) = observe os (enqueued a st)"
  by (simp add: enqueued_def observe_def)

lemma enqueued_fields [simp]:
  "is_connected (enqueued a st) = is_connected st"
  "event_handlers (enqueued a st) = event_handlers st"
  "trace (enqueued a st) = trace st"
  "link_open (enqueued a st) = link_open st"
  "link_closed (enqueued a st) = link_closed st"
  by (cases "serial st"; simp add: enqueued_def link_open_def link_closed_def)+

lemma link_observe [simp]:
  "link_open (observe os st) = link_open st"
  "link_closed (observe os st) = link_closed st"
  by (simp_all add: link_open_def link_closed_def)

lemma outbound_frame [simp]:
  "outbound (observe os st) = outbound st"
  by (simp add: outbound_def)

subsection \<open>Dispatch\<close>

lemma run_handlers_eq:
  "run_handlers event hs args st = (None, observe (concat (map (delivery event args) hs)) st)"
  by (induction hs arbitrary: st) (simp_all add: delivery_def split: outcome.splits)

lemma raised_frame [simp]:
  "raised (observe os st) = raised st"
  "raised (enqueued a st) = raised st"
  by (simp_all add: raised_def subscribers_def fun_eq_iff)

lemma raised_update [simp]:
  "raised (st\<lparr>serial := s\<rparr>) = raised st"
  "raised (st\<lparr>is_connected := c\<rparr>) = raised st"
  "raised (st\<lparr>trace := t\<rparr>) = raised st"
  by (simp_all add: raised_def subscribers_def fun_eq_iff)

lemma raise_event_eq: "raise_event event args st = (None, observe (raised st event args) st)"
  by (simp add: raise_event_def raised_def subscribers_def run_handlers_eq Let_def split: option.splits)

lemma called_append: "called (xs @ ys) = called xs @ called ys"
  by (induction xs rule: called.induct) simp_all

lemma called_deliveries: "called (concat (map (delivery event args) hs)) = map hid hs"
  by (induction hs) (simp_all add: delivery_def called_append split: outcome.splits)

lemma raised_names_append: "raised_names (xs @ ys) = raised_names xs @ raised_names ys"
  by (induction xs rule: raised_names.induct) simp_all

lemma raised_names_deliveries: "raised_names (concat (map (delivery event args) hs)) = []"
  by (induction hs) (simp_all add: delivery_def raised_names_append split: outcome.splits)

lemma raised_names_raised: "raised_names (raised st event args) = [event]"
  by (simp add: raised_def raised_names_deliveries)

lemma emitted_append: "emitted (xs @ ys) = emitted xs @ emitted ys"
  by (induction xs) simp_all

lemma emitted_deliveries: "emitted (concat (map (delivery event args) hs)) = []"
  by (induction hs) (simp_all add: delivery_def emitted_append split: outcome.splits)

lemma emitted_raised:
  "emitted (raised st ev [AStr line, AStr evt, AList args]) =
     (if ev = str ''iii_event'' then [(evt, args)] else [])"
  by (simp add: raised_def emitted_deliveries)

lemma emitted_output: "emitted (raised st (str ''iii_output'') [AStr line]) = []"
  by (simp add: raised_def emitted_deliveries)

subsection \<open>Text\<close>

lemma scalar_str: "list_all is_scalar (str s)"
proof -
  have "is_scalar (of_char c)" for c
  proof -
    have "(of_char c :: nat) < 256" by (rule nat_of_char_less_256)
    then have "(of_char c :: nat) < 55296" by linarith
    then show ?thesis unfolding is_scalar_def by blast
  qed
  then show ?thesis by (simp add: str_def list_all_iff)
qed

lemma set_rstrip: "set (rstrip s) \<subseteq> set s"
  unfolding rstrip_def using set_dropWhileD[of _ isspace "rev s"] by auto

lemma scalar_rstrip: "list_all is_scalar s \<Longrightarrow> list_all is_scalar (rstrip s)"
  using set_rstrip[of s] by (auto simp: list_all_iff)

lemma rstrip_snoc: "\<not> isspace c \<Longrightarrow> rstrip (s @ [c]) = s @ [c]"
  by (simp add: rstrip_def)

lemma rstrip_empty: "rstrip [] = []"
  by (simp add: rstrip_def)

lemma set_readlines: "l \<in> set (readlines s) \<Longrightarrow> set l \<subseteq> insert 10 (set s)"
proof (induction s arbitrary: l rule: readlines.induct)
  case 1
  then show ?case by simp
next
  case (2 c cs)
  show ?case
  proof (cases "c = 10")
    case True
    with 2(1)[OF True] 2(5) show ?thesis by auto
  next
    case lf: False
    show ?thesis
    proof (cases "c = 13")
      case cr: True
      show ?thesis
      proof (cases cs)
        case Nil
        with 2(5) lf cr show ?thesis by simp
      next
        case (Cons d r)
        show ?thesis
        proof (cases "d = 10")
          case True
          with 2(2)[OF lf cr Cons True] 2(5) lf cr Cons show ?thesis by auto
        next
          case False
          with 2(3)[OF lf cr Cons False] 2(5) lf cr Cons show ?thesis by auto
        qed
      qed
    next
      case False
      have ih: "\<And>l. l \<in> set (readlines cs) \<Longrightarrow> set l \<subseteq> insert 10 (set cs)"
        using 2(4)[OF lf False] .
      show ?thesis
      proof (cases "readlines cs")
        case Nil
        with 2(5) lf False show ?thesis by simp
      next
        case (Cons x xs)
        have "set x \<subseteq> insert 10 (set cs)" using ih[of x] Cons by simp
        moreover have "\<And>y. y \<in> set xs \<Longrightarrow> set y \<subseteq> insert 10 (set cs)"
          using ih Cons by simp
        ultimately show ?thesis using 2(5) lf False Cons by auto
      qed
    qed
  qed
qed

lemma scalar_readlines: "list_all is_scalar s \<Longrightarrow> list_all (list_all is_scalar) (readlines s)"
proof -
  assume a: "list_all is_scalar s"
  have "is_scalar 10" by (simp add: is_scalar_def)
  with a show ?thesis using set_readlines[of _ s] by (fastforce simp: list_all_iff)
qed

lemma readlines_one:
  "s \<noteq> [] \<Longrightarrow> 10 \<notin> set s \<Longrightarrow> 13 \<notin> set s \<Longrightarrow> readlines s = [s]"
  by (induction s rule: list_nonempty_induct) simp_all

lemma encode_scalar: "list_all is_scalar s \<Longrightarrow> encode s = Inr (utf8 s)"
  by (induction s) (simp_all add: utf8_def)

lemma utf8_append: "utf8 (a @ b) = utf8 a @ utf8 b"
  by (simp add: utf8_def)

lemma utf8_crlf: "utf8 [13, 10] = [0x0D, 0x0A]"
  by (simp add: utf8_def utf8_char_def)

lemma utf8_ascii: "c < 128 \<Longrightarrow> utf8 (replicate n c @ s) = replicate n (of_nat c) @ utf8 s"
  by (induction n) (simp_all add: utf8_def utf8_char_def)

lemma partition_at_eq:
  "partition_at sep s =
     (takeWhile (\<lambda>c. c \<noteq> sep) s, take 1 (dropWhile (\<lambda>c. c \<noteq> sep) s),
      drop 1 (dropWhile (\<lambda>c. c \<noteq> sep) s))"
  by (induction s) simp_all

lemma any3_partition_at: "any3 (partition_at sep s) = (s \<noteq> [])"
  by (cases s) (auto simp: any3_def split: prod.splits)

lemma until_first:
  "c \<notin> set xs \<Longrightarrow> takeWhile (\<lambda>x. x \<noteq> c) (xs @ c # ys) = xs"
  "c \<notin> set xs \<Longrightarrow> dropWhile (\<lambda>x. x \<noteq> c) (xs @ c # ys) = c # ys"
  by (induction xs) auto

lemma split_nonempty: "split sep s \<noteq> []"
  by (induction sep s rule: split.induct) (auto split: list.splits)

lemma split_unmarked: "c \<notin> set s \<Longrightarrow> split (c # sep) s = [s]"
  by (induction s) (auto split: list.splits)

lemma split_leading: "split (c # sep) ((c # sep) @ s) = [] # split (c # sep) s"
  by simp

lemma contains_leading: "contains sub (sub @ s)"
proof (cases "sub @ s")
  case Nil
  then show ?thesis by simp
next
  case (Cons a l)
  have "prefix sub (sub @ s)" by simp
  then show ?thesis by (simp add: Cons)
qed

lemma split_caret: "94 \<notin> set s \<Longrightarrow> split (str ''^^'') s = [s]"
  by (simp add: str_def split_unmarked)

lemma split_marked: "split (str ''^^'') (str ''^^'' @ s) = [] # split (str ''^^'') s"
  by (simp add: str_def)

lemma contains_marked: "contains (str ''^^'') (str ''^^'' @ s)"
  by (rule contains_leading)

subsection \<open>Writing\<close>

lemma writebin_open:
  "link_open st \<Longrightarrow> writebin b st = (None, observe [Wrote (padded b)] (enqueued [padded b] st))"
  by (cases "serial st")
     (simp_all add: writebin_def link_open_def bridge_write_def padded_def enqueued_def observe_def Let_def)

lemma writebin_closed: "link_closed st \<Longrightarrow> writebin b st = (Some not_open, st)"
  by (cases "serial st")
     (simp_all add: writebin_def link_closed_def bridge_write_def not_open_def Let_def)

lemma writebin_none: "serial st = None \<Longrightarrow> writebin b st = (None, st)"
  by (simp add: writebin_def)

lemma write_open:
  "link_open st \<Longrightarrow> list_all is_scalar s \<Longrightarrow>
   write_str s st = (None, observe [Wrote (padded (utf8 s))] (enqueued [padded (utf8 s)] st))"
  by (simp add: write_str_def encode_scalar writebin_open)

lemma writeline_open:
  "link_open st \<Longrightarrow> list_all is_scalar line \<Longrightarrow>
   writeline line st = (None, observe [Wrote (wire line)] (enqueued [wire line] st))"
  by (simp add: writeline_def write_open wire_def utf8_append utf8_crlf is_scalar_def)

lemma writeline_closed:
  "link_closed st \<Longrightarrow> list_all is_scalar line \<Longrightarrow> writeline line st = (Some not_open, st)"
  by (simp add: writeline_def write_str_def encode_scalar writebin_closed is_scalar_def)

lemma writeline_none:
  "serial st = None \<Longrightarrow> list_all is_scalar line \<Longrightarrow> writeline line st = (None, st)"
  by (simp add: writeline_def write_str_def encode_scalar writebin_none is_scalar_def)

lemma writelines_open:
  "link_open st \<Longrightarrow> list_all (list_all is_scalar) ls \<Longrightarrow>
   writelines ls st = (None, observe (paced ls) (enqueued (map (\<lambda>l. wire (rstrip l)) ls) st))"
proof (induction ls arbitrary: st)
  case Nil
  then show ?case by (simp add: paced_def)
next
  case (Cons l ls)
  have "link_open (observe [Wrote (wire (rstrip l)), Slept 1] (enqueued [wire (rstrip l)] st))"
    using Cons.prems by simp
  moreover have "list_all (list_all is_scalar) ls" using Cons.prems by simp
  ultimately show ?case
    using Cons.prems Cons.IH[of "observe [Wrote (wire (rstrip l)), Slept 1] (enqueued [wire (rstrip l)] st)"]
    by (simp add: seq_def sleep_def writeline_open scalar_rstrip paced_def)
qed

lemma upload_inner_open:
  assumes "link_open st" "fs fname = Some text" "list_all is_scalar text"
    "list_all is_scalar end_marker"
  shows "upload_inner fs fname event end_marker st =
     (None, observe (raised st event [AStr fname] @ upload_obs (readlines text) end_marker)
              (enqueued (upload_frames (readlines text) end_marker) st))"
  using assms
  by (simp add: upload_inner_def seq_def raise_event_eq writeline_open scalar_str sleep_def
      writefile_def writelines_open scalar_readlines upload_obs_def upload_frames_def)

lemma upload_inner_missing:
  assumes "link_open st" "fs fname = None"
  shows "upload_inner fs fname event end_marker st =
     (Some (FileNotFoundError fname),
      observe (raised st event [AStr fname] @ [Wrote (wire (str ''^^s'')), Slept 100])
        (enqueued [wire (str ''^^s'')] st))"
  using assms
  by (simp add: upload_inner_def seq_def raise_event_eq writeline_open scalar_str sleep_def
      writefile_def)

lemma upload_inner_missing_unbridged:
  assumes "serial st = None" "fs fname = None"
  shows "upload_inner fs fname event end_marker st =
     (Some (FileNotFoundError fname), observe (raised st event [AStr fname] @ [Slept 100]) st)"
  using assms
  by (simp add: upload_inner_def seq_def raise_event_eq writeline_none scalar_str sleep_def
      writefile_def)

lemma upload_inner_closed:
  assumes "link_closed st"
  shows "upload_inner fs fname event end_marker st =
     (Some not_open, observe (raised st event [AStr fname]) st)"
  using assms
  by (simp add: upload_inner_def seq_def raise_event_eq writeline_closed scalar_str)

subsection \<open>Connecting and reading\<close>

lemma connect_eq:
  "connect established st =
     (if established then None else Some open_failed,
      observe [OpenAttempt established] (st\<lparr>serial := Some (attempted established)\<rparr>))"
  by (simp add: connect_def bridge_open_def new_bridge_def attempted_def open_failed_def
      observe_def Let_def)

lemma reconnect_established:
  "reconnect True err_event st =
     (None, observe (OpenAttempt True # raised st (str ''connect'') [])
              (st\<lparr>serial := Some (attempted True), is_connected := True\<rparr>))"
  by (simp add: reconnect_def connect_eq raise_event_eq attempted_def observe_def)

lemma reconnect_failed:
  "reconnect False err_event st =
     (None,
      if is_connected st \<or> err_event
      then observe (OpenAttempt False # raised st (str ''connect_err'') [AExc open_failed])
             (st\<lparr>serial := Some (attempted False), is_connected := False\<rparr>)
      else observe [OpenAttempt False] (st\<lparr>serial := Some (attempted False)\<rparr>))"
  by (simp add: reconnect_def connect_eq raise_event_eq observe_def)

lemma read_loop_timeout:
  "read_loop n (Some ms) q data = Some (data @ concat (take n q), drop n q)"
  by (induction n "Some ms" q data rule: read_loop.induct) simp_all

lemma read_frame:
  assumes "read count st = Some (r, st1)"
  shows "trace st1 = trace st \<and> event_handlers st1 = event_handlers st \<and>
         is_connected st1 = is_connected st"
  using assms
  by (auto simp: read_def readbin_def split: option.splits sum.splits prod.splits)

lemma read_closed: "link_closed st \<Longrightarrow> read count st = Some (Inl not_open, st)"
  by (cases "serial st")
     (simp_all add: read_def readbin_def bridge_read_def link_closed_def not_open_def)

lemma read_forever_body_failure:
  assumes "read 10000 st = Some (Inl exc, st1)"
  shows "read_forever_body established st =
     Some (observe [Slept 100]
       (snd (reconnect established False
          (if is_connected st1 then observe [LostConnection exc] st1 else st1))))"
  using assms by (simp add: read_forever_body_def sleep_def)

lemma read_forever_body_data:
  assumes "read 10000 st = Some (Inr r, st1)"
  shows "read_forever_body established st = Some (observe [Slept 1] st1)"
  using assms by (simp add: read_forever_body_def sleep_def)

subsection \<open>The tokenizer\<close>

lemma process_cmds_eq:
  "process_cmds line cmds st =
     (None, observe (concat (map (\<lambda>seg. raised st (str ''iii_event'') (segment_event line seg))
                       (filter (\<lambda>seg. rstrip seg \<noteq> []) cmds))) st)"
proof (induction cmds arbitrary: st)
  case Nil
  then show ?case by simp
next
  case (Cons cmd cmds)
  show ?case
  proof (cases "rstrip cmd = []")
    case True
    then show ?thesis using Cons.IH[of st] by (simp add: any3_def)
  next
    case False
    then have "any3 (partition_at 40 (rstrip cmd))"
      by (simp add: any3_partition_at)
    then show ?thesis
      using False Cons.IH[of "observe (raised st (str ''iii_event'') (segment_event line cmd)) st"]
      by (simp add: partition_at_eq seq_def raise_event_eq segment_event_def Let_def)
  qed
qed

lemma process_line_marked:
  "contains (str ''^^'') line \<Longrightarrow>
   process_line line st =
     (None, observe (concat (map (\<lambda>seg. raised st (str ''iii_event'') (segment_event line seg))
                       (filter (\<lambda>seg. rstrip seg \<noteq> []) (split (str ''^^'') line)))) st)"
  by (simp add: process_line_def process_cmds_eq)

lemma process_line_plain:
  "\<not> contains (str ''^^'') line \<Longrightarrow>
   process_line line st =
     (None, if line = [] then st else observe (raised st (str ''iii_output'') [AStr line]) st)"
  by (simp add: process_line_def raise_event_eq)

lemma emitted_segments:
  "emitted (concat (map (\<lambda>seg. raised st (str ''iii_event'') (segment_event line seg)) segs)) =
     map (\<lambda>seg. (takeWhile (\<lambda>c. c \<noteq> 40) (rstrip seg),
                  split (str '','')
                    (rstrip_chars (str '')'') (drop 1 (dropWhile (\<lambda>c. c \<noteq> 40) (rstrip seg))))))
       segs"
  by (induction segs) (simp_all add: emitted_append emitted_raised segment_event_def)

lemma emitted_process_line:
  "emitted (drop (length (trace st)) (trace (snd (process_line line st)))) =
     (if contains (str ''^^'') line
      then map (\<lambda>seg. (takeWhile (\<lambda>c. c \<noteq> 40) (rstrip seg),
                  split (str '','')
                    (rstrip_chars (str '')'') (drop 1 (dropWhile (\<lambda>c. c \<noteq> 40) (rstrip seg))))))
             (filter (\<lambda>seg. rstrip seg \<noteq> []) (split (str ''^^'') line))
      else [])"
  by (simp add: process_line_marked process_line_plain emitted_segments emitted_output)

subsection \<open>The session\<close>

lemmas eval_text = str_def utf8_def utf8_char_def wire_def padded_def rstrip_def isspace_def
  rstrip_chars_def is_scalar_def

lemma connected_eq:
  "connected = \<lparr>serial = Some (attempted True), is_connected = True,
      event_handlers = repl_handlers, trace = [OpenAttempt True, Raised (str ''connect'') [], Called 2 []]\<rparr>"
  by (simp add: connected_def reconnect_established replace_handlers_def init_def observe_def
      raised_def subscribers_def repl_handlers_def delivery_def printing_def str_def)

lemma link_open_connected: "link_open connected"
  by (simp add: connected_eq link_open_def attempted_def)

lemma files_script: "files (str ''a.lua'') = Some script"
  by (simp add: files_def str_def)

lemma files_wide: "files (str ''wide.lua'') = Some (replicate 62 97)"
  by (simp add: files_def str_def)

lemma files_cr: "files (str ''cr.lua'') = Some [97, 13, 98, 10]"
  by (simp add: files_def str_def)

lemma files_missing: "files (str ''missing.lua'') = None"
  by (simp add: files_def str_def)

lemma scalar_script: "list_all is_scalar script"
  by (simp add: script_def eval_text)

lemma readlines_script:
  "readlines script = [str ''x=1'' @ [10], str ''y=2  '' @ [10], str ''z()'' @ [10]]"
  by (simp add: script_def eval_text)

lemma wire_wide: "wire (rstrip (replicate 62 97)) = replicate 62 97 @ [13, 10, 10]"
  using utf8_ascii[of 97 62 "[]"]
  by (simp add: wire_def padded_def rstrip_def isspace_def utf8_def)

lemma wire_markers:
  "wire (str ''^^s'') = [94, 94, 115, 13, 10]"
  "wire (str ''^^w'') = [94, 94, 119, 13, 10]"
  "wire (str ''^^e'') = [94, 94, 101, 13, 10]"
  "wire (str ''^^z'') = [94, 94, 122, 13, 10]"
  by (simp_all add: eval_text)

lemma dropped_eq: "dropped = connected\<lparr>serial := Some ((attempted True)\<lparr>is_open := False\<rparr>)\<rparr>"
  by (simp add: dropped_def io_thread_def connected_eq websocket_loop_finished_def Let_def)

lemma link_closed_dropped: "link_closed dropped"
  by (simp add: dropped_eq link_closed_def)

lemma is_connected_dropped: "is_connected dropped"
  by (simp add: dropped_eq connected_eq)

lemma read_dropped: "read 10000 dropped = Some (Inl not_open, dropped)"
  by (rule read_closed) (rule link_closed_dropped)

lemma receiving_eq:
  "receiving = connected\<lparr>serial := Some ((attempted True)\<lparr>read_queue := [utf8 (str ''^^clear()'')]\<rparr>)\<rparr>"
  by (simp add: receiving_def io_thread_def connected_eq receiver_put_def Let_def attempted_def new_bridge_def)

lemma decode_clear: "decode (utf8 (str ''^^clear()'')) = Inr (str ''^^clear()'')"
  by (simp add: eval_text)

lemma read_receiving: "read 10000 receiving = Some (Inr (str ''^^clear()''), connected)"
  by (simp add: receiving_eq read_def readbin_def bridge_read_def read_loop_timeout decode_clear
      connected_eq attempted_def new_bridge_def)

section \<open>The properties\<close>

subsection \<open>C1\<close>

text \<open>
  Claim C1, as amended. On a link whose bridge is open, \<open>upload\<close> of an existing file
  returns normally. It first raises \<open>uploading\<close> with the path, then hands the bridge, as
  distinct chunks and in this order, the start marker \<open>^^s\<close>, every line of the file with
  its trailing whitespace removed, \<open>^^w\<close> and \<open>^^z\<close>, with the pauses of the source in
  between. The lines are those of Python's text mode: \<open>content\<close> is the text of the file
  as decoded, and a line of it ends at LF, at CR LF or at a lone CR. \<open>execute\<close> does the same with \<open>running\<close> and \<open>^^e\<close>. Every chunk is the UTF-8
  encoding of the text followed by CR LF, and by one more LF when text and terminator
  together are a multiple of 64 bytes long.
\<close>

theorem upload_transmits_frame:
  assumes "link_open st" and "fs fname = Some content" and "list_all is_scalar content"
  shows
    "upload fs fname st =
       (None,
        observe
          (raised st (str ''uploading'') [AStr fname] @
           [Wrote (wire (str ''^^s'')), Slept 100] @
           concat (map (\<lambda>l. [Wrote (wire (rstrip l)), Slept 1]) (readlines content)) @
           [Slept 100, Wrote (wire (str ''^^w'')), Slept 100, Wrote (wire (str ''^^z''))])
          (enqueued
             (wire (str ''^^s'') # map (\<lambda>l. wire (rstrip l)) (readlines content) @
              [wire (str ''^^w''), wire (str ''^^z'')]) st)) \<and>
     execute fs fname st =
       (None,
        observe
          (raised st (str ''running'') [AStr fname] @
           [Wrote (wire (str ''^^s'')), Slept 100] @
           concat (map (\<lambda>l. [Wrote (wire (rstrip l)), Slept 1]) (readlines content)) @
           [Slept 100, Wrote (wire (str ''^^e'')), Slept 100, Wrote (wire (str ''^^z''))])
          (enqueued
             (wire (str ''^^s'') # map (\<lambda>l. wire (rstrip l)) (readlines content) @
              [wire (str ''^^e''), wire (str ''^^z'')]) st)) \<and>
     (\<forall>t. wire t =
        (if length (utf8 t @ [0x0D, 0x0A]) mod 64 = 0 then utf8 t @ [0x0D, 0x0A, 0x0A]
         else utf8 t @ [0x0D, 0x0A]))"
  using assms
  by (simp add: upload_def execute_def upload_inner_open scalar_str upload_obs_def
      upload_frames_def paced_def wire_def padded_def)

text \<open>
  The theorem at the three-line script: six chunks, none of them padded; the second line
  goes out without its two trailing spaces; the subscriber that raises does not stop the
  transfer. And at the script whose first line ends with a lone CR: two payload chunks.
\<close>

theorem upload_transmits_frame_witness:
  "link_open connected \<and> files (str ''a.lua'') = Some script \<and> list_all is_scalar script \<and>
   fst (upload files (str ''a.lua'') connected) = None \<and>
   outbound (snd (upload files (str ''a.lua'') connected)) =
     [[94, 94, 115, 13, 10], [120, 61, 49, 13, 10], [121, 61, 50, 13, 10], [122, 40, 41, 13, 10],
      [94, 94, 119, 13, 10], [94, 94, 122, 13, 10]] \<and>
   outbound (snd (execute files (str ''a.lua'') connected)) =
     [[94, 94, 115, 13, 10], [120, 61, 49, 13, 10], [121, 61, 50, 13, 10], [122, 40, 41, 13, 10],
      [94, 94, 101, 13, 10], [94, 94, 122, 13, 10]] \<and>
   files (str ''cr.lua'') = Some [97, 13, 98, 10] \<and> list_all is_scalar [97, 13, 98, 10] \<and>
   outbound (snd (upload files (str ''cr.lua'') connected)) =
     [[94, 94, 115, 13, 10], [97, 13, 10], [98, 13, 10], [94, 94, 119, 13, 10],
      [94, 94, 122, 13, 10]] \<and>
   drop 3 (trace (snd (upload files (str ''a.lua'') connected))) =
     [Raised (str ''uploading'') [AStr (str ''a.lua'')],
      Called 1 [AStr (str ''a.lua'')],
      HandlerError (str ''uploading'') 1 (HandlerException (str ''boom'')),
      Called 2 [AStr (str ''a.lua'')],
      Wrote [94, 94, 115, 13, 10], Slept 100,
      Wrote [120, 61, 49, 13, 10], Slept 1, Wrote [121, 61, 50, 13, 10], Slept 1,
      Wrote [122, 40, 41, 13, 10], Slept 1,
      Slept 100, Wrote [94, 94, 119, 13, 10], Slept 100, Wrote [94, 94, 122, 13, 10]]"
proof -
  have w: "map (\<lambda>l. wire (rstrip l)) (readlines script) =
      [[120, 61, 49, 13, 10], [121, 61, 50, 13, 10], [122, 40, 41, 13, 10]]"
    by (simp add: readlines_script eval_text)
  have r: "raised connected (str ''uploading'') [AStr (str ''a.lua'')] =
      [Raised (str ''uploading'') [AStr (str ''a.lua'')],
       Called 1 [AStr (str ''a.lua'')],
       HandlerError (str ''uploading'') 1 (HandlerException (str ''boom'')),
       Called 2 [AStr (str ''a.lua'')]]"
    by (simp add: connected_eq raised_def subscribers_def repl_handlers_def delivery_def
        failing_def printing_def str_def)
  have o: "outbound (enqueued cs connected) = cs" for cs
    by (simp add: outbound_def enqueued_def connected_eq attempted_def new_bridge_def)
  have t: "trace connected = [OpenAttempt True, Raised (str ''connect'') [], Called 2 []]"
    by (simp add: connected_eq)
  have m: "concat (map (\<lambda>l. [Wrote (wire (rstrip l)), Slept 1]) (readlines script)) =
      [Wrote [120, 61, 49, 13, 10], Slept 1, Wrote [121, 61, 50, 13, 10], Slept 1,
       Wrote [122, 40, 41, 13, 10], Slept 1]"
    by (simp add: readlines_script eval_text)
  have r': "raised connected (str ''running'') [AStr (str ''a.lua'')] =
      [Raised (str ''running'') [AStr (str ''a.lua'')]]"
    by (simp add: connected_eq raised_def subscribers_def repl_handlers_def str_def)
  note f = upload_transmits_frame[where st = connected and fs = files
        and fname = "str ''a.lua''" and content = script,
        OF link_open_connected files_script scalar_script]
  note u = f[THEN conjunct1] and e = f[THEN conjunct2, THEN conjunct1]
  have sc: "list_all is_scalar [97, 13, 98, 10]"
    by (simp add: is_scalar_def)
  note g = upload_transmits_frame[where st = connected and fs = files
        and fname = "str ''cr.lua''" and content = "[97, 13, 98, 10]",
        OF link_open_connected files_cr sc]
  note c = g[THEN conjunct1]
  show ?thesis
    by (simp add: u e c link_open_connected files_script scalar_script files_cr w r r' o t
        m[unfolded One_nat_def] wire_markers)
       (simp add: eval_text)
qed

text \<open>
  Claim C1 as stated, every write being the text followed by the line terminator, fails
  for a script whose only line is 62 characters long: the chunk of that line has 65 bytes,
  where the stated sequence has 64, and it does not end with CR LF.
\<close>

theorem upload_wide_line_counterexample:
  "outbound (snd (upload files (str ''wide.lua'') connected)) \<noteq>
     claimed_upload [replicate 62 97] (str ''^^w'') \<and>
   map length (outbound (snd (upload files (str ''wide.lua'') connected))) = [5, 65, 5, 5] \<and>
   \<not> suffix [0x0D, 0x0A] (outbound (snd (upload files (str ''wide.lua'') connected)) ! 1)"
proof -
  have s: "list_all is_scalar (replicate 62 97)"
    by (simp add: list_all_iff is_scalar_def)
  have r: "readlines (replicate 62 97) = [replicate 62 97]"
    by (rule readlines_one) simp_all
  have o: "outbound (enqueued cs connected) = cs" for cs
    by (simp add: outbound_def enqueued_def connected_eq attempted_def new_bridge_def)
  have u: "outbound (snd (upload files (str ''wide.lua'') connected)) =
      [[94, 94, 115, 13, 10], replicate 62 97 @ [13, 10, 10], [94, 94, 119, 13, 10],
       [94, 94, 122, 13, 10]]"
    by (simp add: upload_def upload_inner_open[where fs = files and fname = "str ''wide.lua''", OF link_open_connected files_wide s] scalar_str
        r o upload_frames_def wire_markers wire_wide)
  have c: "map length (claimed_upload [replicate 62 97] (str ''^^w'')) = [5, 64, 5, 5]"
    using utf8_ascii[of 97 62 "[13, 10]"]
    by (simp add: claimed_upload_def) (simp add: eval_text)
  have n: "\<not> suffix [0x0D, 0x0A] (replicate 62 (97::byte) @ [13, 10, 10])"
    by (simp add: suffix_def)
  have "map length (outbound (snd (upload files (str ''wide.lua'') connected))) \<noteq>
      map length (claimed_upload [replicate 62 97] (str ''^^w''))"
    by (simp add: u c)
  then have "outbound (snd (upload files (str ''wide.lua'') connected)) \<noteq>
      claimed_upload [replicate 62 97] (str ''^^w'')"
    by auto
  then show ?thesis using n by (simp add: u)
qed

subsection \<open>C2\<close>

text \<open>
  Claim C2, as amended. For a line that contains \<open>^^\<close>, \<open>process_line\<close> raises one
  \<open>iii_event\<close> for every segment between the markers that is not empty once its trailing
  whitespace is removed, in order and with the whole line attached. The name is the text of
  the right-trimmed segment before its first open parenthesis, nothing else being trimmed
  from it; the arguments are the text after that parenthesis, all trailing close
  parentheses removed, split on commas. In particular \<open>foo(1,2)^^bar(3)\<close> gives \<open>foo\<close>
  with \<open>1\<close>, \<open>2\<close> and then \<open>bar\<close> with \<open>3\<close>, and \<open>^^clear()\<close> gives the one event
  \<open>clear\<close> with the one empty argument.
\<close>

theorem tokenizer_events:
  "(contains (str ''^^'') line \<longrightarrow>
      process_line line st =
        (None,
         observe
           (concat
              (map (\<lambda>seg. raised st (str ''iii_event'')
                      [AStr line,
                       AStr (takeWhile (\<lambda>c. c \<noteq> 40) (rstrip seg)),
                       AList (split (str '','')
                                (rstrip_chars (str '')'')
                                   (drop 1 (dropWhile (\<lambda>c. c \<noteq> 40) (rstrip seg)))))])
                 (filter (\<lambda>seg. rstrip seg \<noteq> []) (split (str ''^^'') line)))) st)) \<and>
   process_line (str ''foo(1,2)^^bar(3)'') st =
     (None,
      observe
        (raised st (str ''iii_event'')
           [AStr (str ''foo(1,2)^^bar(3)''), AStr (str ''foo''), AList [str ''1'', str ''2'']] @
         raised st (str ''iii_event'')
           [AStr (str ''foo(1,2)^^bar(3)''), AStr (str ''bar''), AList [str ''3'']]) st) \<and>
   process_line (str ''^^clear()'') st =
     (None,
      observe
        (raised st (str ''iii_event'')
           [AStr (str ''^^clear()''), AStr (str ''clear''), AList [[]]]) st)"
proof -
  have a: "segment_event (str ''foo(1,2)^^bar(3)'') (str ''foo(1,2)'') =
      [AStr (str ''foo(1,2)^^bar(3)''), AStr (str ''foo''), AList [str ''1'', str ''2'']]"
    by (simp add: segment_event_def eval_text)
  have b: "segment_event (str ''foo(1,2)^^bar(3)'') (str ''bar(3)'') =
      [AStr (str ''foo(1,2)^^bar(3)''), AStr (str ''bar''), AList [str ''3'']]"
    by (simp add: segment_event_def eval_text)
  have c: "segment_event (str ''^^clear()'') (str ''clear()'') =
      [AStr (str ''^^clear()''), AStr (str ''clear''), AList [[]]]"
    by (simp add: segment_event_def eval_text)
  have s: "filter (\<lambda>seg. rstrip seg \<noteq> []) (split (str ''^^'') (str ''foo(1,2)^^bar(3)'')) =
      [str ''foo(1,2)'', str ''bar(3)'']"
    "filter (\<lambda>seg. rstrip seg \<noteq> []) (split (str ''^^'') (str ''^^clear()'')) = [str ''clear()'']"
    by (simp_all add: eval_text)
  have m: "contains (str ''^^'') (str ''foo(1,2)^^bar(3)'')" "contains (str ''^^'') (str ''^^clear()'')"
    by (simp_all add: str_def)
  show ?thesis
    using process_line_marked[of line st] process_line_marked[OF m(1), of st]
      process_line_marked[OF m(2), of st]
    by (simp add: s a b c) (simp add: segment_event_def)
qed

text \<open>
  The theorem at a line with four segments, two of which are dropped: the name keeps its
  space, both close parentheses go.
\<close>

theorem tokenizer_events_witness:
  "contains (str ''^^'') (str ''a (1))^^ ^^b'') \<and>
   trace (snd (process_line (str ''a (1))^^ ^^b'') init)) =
     [Raised (str ''iii_event'') [AStr (str ''a (1))^^ ^^b''), AStr (str ''a ''), AList [str ''1'']],
      Raised (str ''iii_event'') [AStr (str ''a (1))^^ ^^b''), AStr (str ''b''), AList [[]]]]"
proof -
  have m: "contains (str ''^^'') (str ''a (1))^^ ^^b'')"
    by (simp add: str_def)
  have r: "raised init ev args = [Raised ev args]" for ev args
    by (simp add: raised_def subscribers_def init_def)
  have t: "trace init = []" by (simp add: init_def)
  note p = tokenizer_events[of "str ''a (1))^^ ^^b''" init, THEN conjunct1, rule_format, OF m]
  show ?thesis
    by (simp add: m p r t) (simp add: eval_text)
qed

text \<open>
  Claim C2 as stated, the name being the trimmed text before the first open parenthesis,
  fails for the line \<open>^^a (1)\<close>: the name raised is \<open>a\<close> followed by a space.
\<close>

theorem tokenizer_name_counterexample:
  "emitted (trace (snd (process_line (str ''^^a (1)'') init))) = [(str ''a '', [str ''1''])] \<and>
   claimed_events (str ''^^a (1)'') = [(str ''a'', [str ''1''])] \<and>
   emitted (trace (snd (process_line (str ''^^a (1)'') init))) \<noteq> claimed_events (str ''^^a (1)'')"
proof -
  have t: "trace init = []" by (simp add: init_def)
  have e: "emitted (trace (snd (process_line (str ''^^a (1)'') init))) = [(str ''a '', [str ''1''])]"
    using emitted_process_line[of init "str ''^^a (1)''"]
    by (simp add: t) (simp add: eval_text)
  have c: "claimed_events (str ''^^a (1)'') = [(str ''a'', [str ''1''])]"
    by (simp add: claimed_events_def claimed_name_def claimed_argtext_def strip_def rstrip_one_def
        eval_text)
  show ?thesis by (simp add: e c) (simp add: str_def)
qed

subsection \<open>C3\<close>

text \<open>
  Claim C3, as amended. When the read of an iteration of the pump fails while the link is
  connected, the iteration ends, and what it adds to the trace is: the lost connection is
  logged, one connection attempt is made, then \<open>connect\<close> is raised if the attempt
  succeeded and \<open>connect_err\<close> with the error if it failed, then the pump sleeps. No other
  event is raised, so no \<open>disconnect\<close>; and \<open>is_connected\<close> afterwards is false exactly when
  the attempt failed.
\<close>

theorem pump_read_failure_reconnects:
  assumes "is_connected st" and "read 10000 st = Some (Inl exc, st1)"
  shows
    "map_option trace (read_forever_body established st) =
       Some (trace st @ [LostConnection exc, OpenAttempt established] @
             (if established then raised st (str ''connect'') []
              else raised st (str ''connect_err'') [AExc open_failed]) @
             [Slept 100]) \<and>
     events_since st (read_forever_body established st) =
       Some [if established then str ''connect'' else str ''connect_err''] \<and>
     map_option is_connected (read_forever_body established st) = Some established"
proof -
  note f = read_frame[OF assms(2)]
  have r: "raised st1 = raised st"
    using f by (simp add: raised_def subscribers_def fun_eq_iff)
  show ?thesis
  proof (cases established)
    case True
    then show ?thesis
      using assms(1) f
      by (simp add: read_forever_body_failure[OF assms(2)] reconnect_established r
          raised_names_raised raised_names_append events_since_def)
  next
    case False
    then show ?thesis
      using assms(1) f
      by (simp add: read_forever_body_failure[OF assms(2)] reconnect_failed r
          raised_names_raised raised_names_append events_since_def)
  qed
qed

text \<open>The theorem at the link that lost its connection, the new attempt failing too.\<close>

theorem pump_read_failure_reconnects_witness:
  "is_connected dropped \<and>
   read 10000 dropped = Some (Inl (SerialException (str ''Port is not open'')), dropped) \<and>
   map_option trace (read_forever_body False dropped) =
     Some (trace dropped @
       [LostConnection (SerialException (str ''Port is not open'')), OpenAttempt False,
        Raised (str ''connect_err'') [AExc open_failed], Called 2 [AExc open_failed],
        Slept 100]) \<and>
   events_since dropped (read_forever_body False dropped) = Some [str ''connect_err''] \<and>
   map_option is_connected (read_forever_body False dropped) = Some False"
proof -
  have r: "raised dropped (str ''connect_err'') [AExc open_failed] =
      [Raised (str ''connect_err'') [AExc open_failed], Called 2 [AExc open_failed]]"
    by (simp add: dropped_eq connected_eq raised_def subscribers_def repl_handlers_def
        delivery_def printing_def str_def)
  note p = pump_read_failure_reconnects[OF is_connected_dropped read_dropped, of False]
  show ?thesis
    using p by (simp add: is_connected_dropped read_dropped[unfolded not_open_def] r not_open_def)
qed

text \<open>
  Claim C3 as stated fails at the link that lost its connection when the new attempt
  succeeds: the only event raised is \<open>connect\<close>, and \<open>is_connected\<close> is still true.
\<close>

theorem pump_read_failure_counterexample:
  "is_connected dropped \<and>
   read 10000 dropped = Some (Inl (SerialException (str ''Port is not open'')), dropped) \<and>
   events_since dropped (read_forever_body True dropped) = Some [str ''connect''] \<and>
   map_option is_connected (read_forever_body True dropped) = Some True"
  using is_connected_dropped
  by (simp add: read_dropped[unfolded not_open_def]
      read_forever_body_failure[OF read_dropped] reconnect_established raised_names_raised
      raised_names_append events_since_def)

subsection \<open>C4\<close>

text \<open>
  Claim C4 does not hold of the code. Whatever text the read of an iteration returns, the
  iteration does nothing with it: the state after the iteration is the state after the
  read, with one sleep added to the trace. No line reaches \<open>process_line\<close>.
\<close>

theorem pump_discards_received_data:
  assumes "read 10000 st = Some (Inr r, st1)"
  shows "read_forever_body established st = Some (observe [Slept 1] st1)"
  using assms by (rule read_forever_body_data)

text \<open>
  At the link that received the message \<open>^^clear()\<close>: the read returns the message and
  empties the queue, the iteration raises no event, whereas \<open>process_line\<close> on that text
  raises \<open>clear\<close>.
\<close>

theorem pump_discards_received_data_witness:
  "read 10000 receiving = Some (Inr (str ''^^clear()''), connected) \<and>
   read_forever_body False receiving = Some (observe [Slept 1] connected) \<and>
   emitted (trace (observe [Slept 1] connected)) = [] \<and>
   emitted (trace (snd (process_line (str ''^^clear()'') connected))) = [(str ''clear'', [[]])]"
proof -
  have c: "contains (str ''^^'') (str ''^^clear()'')"
    by (simp add: str_def)
  have e: "emitted (trace (snd (process_line (str ''^^clear()'') connected))) =
      [(str ''clear'', [[]])]"
    by (simp add: process_line_marked emitted_append emitted_raised segment_event_def
        connected_eq eval_text)
  have t: "emitted (trace (observe [Slept 1] connected)) = []"
    by (simp add: connected_eq str_def)
  show ?thesis
    using pump_discards_received_data[OF read_receiving, of False]
    by (simp only: read_receiving e t)
qed

subsection \<open>C5\<close>

text \<open>
  Claim C5, as amended. For a path that names no file, \<open>upload\<close> on a link whose bridge is
  open raises the progress event, hands the start marker to the bridge, sleeps, and then
  fails with \<open>FileNotFoundError\<close>: the start marker is the only chunk written. On a link
  without a bridge it fails with \<open>FileNotFoundError\<close> too, and nothing is written.
\<close>

theorem upload_missing_file:
  assumes "fs fname = None"
  shows
    "(link_open st \<longrightarrow>
        upload fs fname st =
          (Some (FileNotFoundError fname),
           observe (raised st (str ''uploading'') [AStr fname] @
                    [Wrote (wire (str ''^^s'')), Slept 100])
             (enqueued [wire (str ''^^s'')] st))) \<and>
     (serial st = None \<longrightarrow>
        upload fs fname st =
          (Some (FileNotFoundError fname),
           observe (raised st (str ''uploading'') [AStr fname] @ [Slept 100]) st))"
  using assms by (simp add: upload_def upload_inner_missing upload_inner_missing_unbridged)

text \<open>The theorem at a missing path, on the connected link and on the initial one.\<close>

theorem upload_missing_file_witness:
  "files (str ''missing.lua'') = None \<and> link_open connected \<and> serial init = None \<and>
   fst (upload files (str ''missing.lua'') connected) =
     Some (FileNotFoundError (str ''missing.lua'')) \<and>
   outbound (snd (upload files (str ''missing.lua'') connected)) = [[94, 94, 115, 13, 10]] \<and>
   upload files (str ''missing.lua'') init =
     (Some (FileNotFoundError (str ''missing.lua'')),
      observe [Raised (str ''uploading'') [AStr (str ''missing.lua'')], Slept 100] init)"
proof -
  have i: "serial init = None" by (simp add: init_def)
  have o: "outbound (enqueued cs connected) = cs" for cs
    by (simp add: outbound_def enqueued_def connected_eq attempted_def new_bridge_def)
  have r: "raised init ev args = [Raised ev args]" for ev args
    by (simp add: raised_def subscribers_def init_def)
  note a = upload_missing_file[where fs = files and fname = "str ''missing.lua''"
      and st = connected, OF files_missing]
  note b = upload_missing_file[where fs = files and fname = "str ''missing.lua''"
      and st = init, OF files_missing]
  show ?thesis
    using a b by (simp add: files_missing link_open_connected i o r wire_markers)
qed

text \<open>
  Claim C5 as stated, no transmission before the error, fails on the connected link: the
  outbound queue was empty and holds the start marker when \<open>FileNotFoundError\<close> is raised.
\<close>

theorem upload_missing_file_counterexample:
  "files (str ''missing.lua'') = None \<and>
   fst (upload files (str ''missing.lua'') connected) =
     Some (FileNotFoundError (str ''missing.lua'')) \<and>
   outbound connected = [] \<and>
   outbound (snd (upload files (str ''missing.lua'') connected)) = [[94, 94, 115, 13, 10]]"
proof -
  have o: "outbound (enqueued cs connected) = cs" for cs
    by (simp add: outbound_def enqueued_def connected_eq attempted_def new_bridge_def)
  have e: "outbound connected = []"
    by (simp add: outbound_def connected_eq attempted_def new_bridge_def)
  show ?thesis
    by (simp add: files_missing upload_def upload_inner_missing[where fs = files and fname = "str ''missing.lua''",
          OF link_open_connected files_missing]
        o e wire_markers)
qed

subsection \<open>C6\<close>

text \<open>
  Claim C6. \<open>raise_event\<close> never raises. Without an entry for the event it only records the
  call; with one, every subscriber of the entry is called, once and in the order of the
  entry, and a subscriber that raises has its error logged before the next one is called.
\<close>

theorem raise_event_isolates_subscribers:
  "fst (raise_event event args st) = None \<and>
   (event_handlers st event = None \<longrightarrow>
      snd (raise_event event args st) = observe [Raised event args] st) \<and>
   (\<forall>hs. event_handlers st event = Some hs \<longrightarrow>
      snd (raise_event event args st) =
        observe (Raised event args # concat (map (delivery event args) hs)) st \<and>
      called (concat (map (delivery event args) hs)) = map hid hs)"
proof -
  have returns: "fst (raise_event event args st) = None"
    by (simp add: raise_event_eq)
  have unheard: "snd (raise_event event args st) = observe [Raised event args] st"
    if "event_handlers st event = None"
    using that by (simp add: raise_event_eq raised_def subscribers_def)
  have heard: "snd (raise_event event args st) =
      observe (Raised event args # concat (map (delivery event args) hs)) st"
    if "event_handlers st event = Some hs" for hs
    using that by (simp add: raise_event_eq raised_def subscribers_def)
  show ?thesis
    using returns unheard heard by (simp add: called_deliveries)
qed

text \<open>The theorem at an event without entry and at an event whose first subscriber raises.\<close>

theorem raise_event_isolates_subscribers_witness:
  "event_handlers connected (str ''uploading'') = Some [failing, printing] \<and>
   event_handlers connected (str ''unheard'') = None \<and>
   fst (raise_event (str ''uploading'') [AStr (str ''a.lua'')] connected) = None \<and>
   snd (raise_event (str ''unheard'') [] connected) =
     observe [Raised (str ''unheard'') []] connected \<and>
   snd (raise_event (str ''uploading'') [AStr (str ''a.lua'')] connected) =
     observe
       [Raised (str ''uploading'') [AStr (str ''a.lua'')],
        Called 1 [AStr (str ''a.lua'')],
        HandlerError (str ''uploading'') 1 (HandlerException (str ''boom'')),
        Called 2 [AStr (str ''a.lua'')]] connected"
proof -
  have h: "event_handlers connected (str ''uploading'') = Some [failing, printing]"
    by (simp add: connected_eq repl_handlers_def str_def)
  have n: "event_handlers connected (str ''unheard'') = None"
    by (simp add: connected_eq repl_handlers_def str_def)
  have d: "concat (map (delivery (str ''uploading'') [AStr (str ''a.lua'')]) [failing, printing]) =
      [Called 1 [AStr (str ''a.lua'')],
       HandlerError (str ''uploading'') 1 (HandlerException (str ''boom'')),
       Called 2 [AStr (str ''a.lua'')]]"
    by (simp add: delivery_def failing_def printing_def)
  show ?thesis
    using raise_event_isolates_subscribers[of "str ''uploading''" "[AStr (str ''a.lua'')]" connected]
      raise_event_isolates_subscribers[of "str ''unheard''" "[]" connected] h n d
    by simp
qed

subsection \<open>C7\<close>

text \<open>
  Claim C7, as amended. On a link whose bridge is open, \<open>write\<close> of a text hands the
  bridge one chunk: the UTF-8 encoding of the text, followed by one LF when the encoding is
  a multiple of 64 bytes long (the empty text included). \<open>writeline\<close> does the same with
  the encoding of the text followed by CR LF.
\<close>

theorem write_transmits_padded_utf8:
  assumes "link_open st" and "list_all is_scalar s"
  shows
    "write_str s st =
       (None, observe [Wrote (padded (utf8 s))] (enqueued [padded (utf8 s)] st)) \<and>
     writeline s st =
       (None, observe [Wrote (padded (utf8 s @ [0x0D, 0x0A]))]
                (enqueued [padded (utf8 s @ [0x0D, 0x0A])] st)) \<and>
     (\<forall>b. padded b = (if length b mod 64 = 0 then b @ [0x0A] else b))"
  using assms writeline_open[of st s]
  by (simp add: write_open wire_def padded_def)

text \<open>The theorem at a short command and at a line of 62 characters.\<close>

theorem write_transmits_padded_utf8_witness:
  "link_open connected \<and> list_all is_scalar (str ''^^p'') \<and>
   outbound (snd (write_str (str ''^^p'') connected)) = [[94, 94, 112]] \<and>
   outbound (snd (writeline (str ''^^p'') connected)) = [[94, 94, 112, 13, 10]] \<and>
   outbound (snd (writeline (replicate 62 97) connected)) = [replicate 62 97 @ [13, 10, 10]]"
proof -
  have s: "list_all is_scalar (replicate 62 97)"
    by (simp add: list_all_iff is_scalar_def)
  have o: "outbound (enqueued cs connected) = cs" for cs
    by (simp add: outbound_def enqueued_def connected_eq attempted_def new_bridge_def)
  note p = write_transmits_padded_utf8[OF link_open_connected scalar_str, of "''^^p''"]
  note q = write_transmits_padded_utf8[OF link_open_connected s]
  have w: "padded (utf8 (replicate 62 97) @ [13, 10]) = replicate 62 97 @ [13, 10, 10]"
    using utf8_ascii[of 97 62 "[]"] by (simp add: padded_def utf8_def)
  show ?thesis
    by (simp add: p[THEN conjunct1] p[THEN conjunct2, THEN conjunct1]
        q[THEN conjunct2, THEN conjunct1] link_open_connected scalar_str o w)
       (simp add: eval_text)
qed

text \<open>
  Claim C7 as stated, exactly the encoding and no byte added, fails for the empty text: its
  encoding is empty, and the chunk written is the one byte LF.
\<close>

theorem write_empty_counterexample:
  "outbound (snd (write_str [] connected)) = [[0x0A]] \<and> utf8 [] = [] \<and>
   outbound (snd (write_str [] connected)) \<noteq> [utf8 []]"
proof -
  have o: "outbound (enqueued cs connected) = cs" for cs
    by (simp add: outbound_def enqueued_def connected_eq attempted_def new_bridge_def)
  show ?thesis
    by (simp add: write_open[OF link_open_connected] o padded_def utf8_def)
qed

subsection \<open>C8\<close>

text \<open>
  Claim C8, as amended. On a link that holds a bridge which is not open, \<open>write\<close>,
  \<open>writeline\<close>, \<open>upload\<close> and \<open>execute\<close> fail with the bridge's \<open>SerialException\<close>
  \<open>Port is not open\<close>, and the state is unchanged but for the progress event of the two
  transfers. On a link that holds no bridge, \<open>write\<close> and \<open>writeline\<close> return normally
  and leave the state unchanged.
\<close>

theorem transmit_on_closed_bridge:
  "(link_closed st \<and> list_all is_scalar s \<longrightarrow>
      write_str s st = (Some (SerialException (str ''Port is not open'')), st) \<and>
      writeline s st = (Some (SerialException (str ''Port is not open'')), st)) \<and>
   (link_closed st \<longrightarrow>
      upload fs fname st =
        (Some (SerialException (str ''Port is not open'')),
         observe (raised st (str ''uploading'') [AStr fname]) st) \<and>
      execute fs fname st =
        (Some (SerialException (str ''Port is not open'')),
         observe (raised st (str ''running'') [AStr fname]) st)) \<and>
   (serial st = None \<and> list_all is_scalar s \<longrightarrow>
      write_str s st = (None, st) \<and> writeline s st = (None, st))"
  using writeline_closed[of st s] writeline_none[of st s]
  by (simp add: upload_def execute_def upload_inner_closed write_str_def encode_scalar
      writebin_closed writebin_none not_open_def)

text \<open>The theorem at the link that lost its connection and at the initial link.\<close>

theorem transmit_on_closed_bridge_witness:
  "link_closed dropped \<and> list_all is_scalar (str ''^^p'') \<and> serial init = None \<and>
   write_str (str ''^^p'') dropped = (Some (SerialException (str ''Port is not open'')), dropped) \<and>
   writeline (str ''^^p'') dropped = (Some (SerialException (str ''Port is not open'')), dropped) \<and>
   fst (upload files (str ''a.lua'') dropped) = Some (SerialException (str ''Port is not open'')) \<and>
   fst (execute files (str ''a.lua'') dropped) = Some (SerialException (str ''Port is not open'')) \<and>
   outbound (snd (upload files (str ''a.lua'') dropped)) = [] \<and>
   writeline (str ''^^p'') init = (None, init)"
proof -
  have i: "serial init = None" by (simp add: init_def)
  have o: "outbound dropped = []"
    by (simp add: dropped_eq outbound_def attempted_def new_bridge_def)
  note a = transmit_on_closed_bridge[of dropped "str ''^^p''" files "str ''a.lua''"]
  note b = transmit_on_closed_bridge[of init "str ''^^p''" files "str ''a.lua''"]
  show ?thesis
    using a b by (simp add: link_closed_dropped scalar_str i o)
qed

text \<open>
  Claim C8 as stated, every transmit operation on a link that is not connected fails, fails
  at the initial link: \<open>write\<close> returns normally and the text is dropped.
\<close>

theorem write_unconnected_counterexample:
  "serial init = None \<and> \<not> is_connected init \<and>
   write_str (str ''^^p'') init = (None, init) \<and> outbound init = []"
  by (simp add: write_str_def encode_scalar[OF scalar_str] writebin_none init_def outbound_def)

subsection \<open>C9\<close>

text \<open>
  Claim C9 does not hold of the code. On an open bridge with a timeout, \<open>read(count)\<close>
  returns, and what it returns is the concatenation of the first \<open>count\<close> chunks of the
  inbound queue, whatever their lengths: \<open>count\<close> bounds the number of chunks, not of bytes.
\<close>

theorem bridge_read_counts_chunks:
  assumes "is_open b" and "timeout b = Some ms"
  shows "bridge_read count b =
     Some (Inr (concat (take count (read_queue b))),
           b\<lparr>read_queue := drop count (read_queue b)\<rparr>)"
  using assms by (simp add: bridge_read_def read_loop_timeout)

text \<open>At a bridge that received the two-byte message \<open>hi\<close>: \<open>read(1)\<close> returns both bytes.\<close>

theorem bridge_read_counts_chunks_witness:
  "is_open (receiver_put [104, 105] (attempted True)) \<and>
   timeout (receiver_put [104, 105] (attempted True)) = Some 500 \<and>
   bridge_read 1 (receiver_put [104, 105] (attempted True)) =
     Some (Inr [104, 105], attempted True) \<and>
   1 < length [104, 105 :: byte]"
proof -
  have o: "is_open (receiver_put [104, 105] (attempted True))"
    by (simp add: receiver_put_def attempted_def)
  have t: "timeout (receiver_put [104, 105] (attempted True)) = Some 500"
    by (simp add: receiver_put_def attempted_def new_bridge_def)
  show ?thesis
    using bridge_read_counts_chunks[OF o t, of 1]
    by (simp add: o t) (simp add: receiver_put_def attempted_def new_bridge_def)
qed

subsection \<open>C10\<close>

text \<open>
  Claim C10. Every structured event that \<open>process_line\<close> raises has at least one argument.
  A segment that is a bare name gives the name with the one empty argument, and so does a
  name followed by empty parentheses.
\<close>

theorem event_arguments_never_empty:
  "(\<forall>e \<in> set (emitted (drop (length (trace st)) (trace (snd (process_line line st))))).
      snd e \<noteq> []) \<and>
   (94 \<notin> set name \<and> 40 \<notin> set name \<and> rstrip name \<noteq> [] \<longrightarrow>
      emitted (drop (length (trace st)) (trace (snd (process_line (str ''^^'' @ name) st)))) =
        [(rstrip name, [[]])]) \<and>
   (94 \<notin> set name \<and> 40 \<notin> set name \<longrightarrow>
      emitted (drop (length (trace st))
                 (trace (snd (process_line (str ''^^'' @ name @ str ''()'') st)))) =
        [(name, [[]])])"
proof -
  have a: "\<forall>e \<in> set (emitted (drop (length (trace st)) (trace (snd (process_line line st))))).
      snd e \<noteq> []"
    by (auto simp: emitted_process_line split_nonempty)
  have b: "emitted (drop (length (trace st)) (trace (snd (process_line (str ''^^'' @ name) st)))) =
        [(rstrip name, [[]])]"
    if "94 \<notin> set name" "40 \<notin> set name" "rstrip name \<noteq> []"
  proof -
    have "40 \<notin> set (rstrip name)" using that(2) set_rstrip[of name] by auto
    then have t: "takeWhile (\<lambda>c. c \<noteq> 40) (rstrip name) = rstrip name"
      "dropWhile (\<lambda>c. c \<noteq> 40) (rstrip name) = []"
      by (auto simp: takeWhile_eq_all_conv)
    show ?thesis
      using that
      by (simp add: emitted_process_line contains_marked split_marked split_caret rstrip_empty t)
         (simp add: str_def rstrip_chars_def)
  qed
  have c: "emitted (drop (length (trace st))
                 (trace (snd (process_line (str ''^^'' @ name @ str ''()'') st)))) =
        [(name, [[]])]"
    if "94 \<notin> set name" "40 \<notin> set name"
  proof -
    have s: "split (str ''^^'') (name @ str ''()'') = [name @ str ''()'']"
      using that(1) by (intro split_caret) (simp add: str_def)
    have r: "rstrip (name @ str ''()'') = name @ str ''()''"
      using rstrip_snoc[of 41 "name @ [40]"] by (simp add: str_def isspace_def)
    have t: "takeWhile (\<lambda>c. c \<noteq> 40) (name @ str ''()'') = name"
      "dropWhile (\<lambda>c. c \<noteq> 40) (name @ str ''()'') = str ''()''"
      using that(2) by (simp_all add: str_def until_first)
    show ?thesis
      by (simp add: emitted_process_line contains_marked split_marked s r t rstrip_empty)
         (simp add: str_def rstrip_chars_def)
  qed
  show ?thesis using a b c by blast
qed

text \<open>The theorem at \<open>^^ready\<close> and at \<open>^^clear()\<close>.\<close>

theorem event_arguments_never_empty_witness:
  "94 \<notin> set (str ''ready'') \<and> 40 \<notin> set (str ''ready'') \<and> rstrip (str ''ready'') \<noteq> [] \<and>
   94 \<notin> set (str ''clear'') \<and> 40 \<notin> set (str ''clear'') \<and>
   emitted (drop (length (trace connected))
      (trace (snd (process_line (str ''^^ready'') connected)))) = [(str ''ready'', [[]])] \<and>
   emitted (drop (length (trace connected))
      (trace (snd (process_line (str ''^^clear()'') connected)))) = [(str ''clear'', [[]])] \<and>
   list_all (\<lambda>e. snd e \<noteq> [])
     (emitted (drop (length (trace connected))
        (trace (snd (process_line (str ''^^clear()'') connected)))))"
proof -
  have h: "94 \<notin> set (str ''ready'') \<and> 40 \<notin> set (str ''ready'') \<and> rstrip (str ''ready'') \<noteq> []"
    by (simp add: eval_text)
  have k: "94 \<notin> set (str ''clear'') \<and> 40 \<notin> set (str ''clear'')"
    by (simp add: eval_text)
  have r: "rstrip (str ''ready'') = str ''ready''"
    by (simp add: eval_text)
  have e: "str ''^^'' @ str ''ready'' = str ''^^ready''"
    "str ''^^'' @ str ''clear'' @ str ''()'' = str ''^^clear()''"
    by (simp_all add: str_def)
  note a = event_arguments_never_empty[of connected "[]" "str ''ready''",
      THEN conjunct2, THEN conjunct1]
  note b = event_arguments_never_empty[of connected "[]" "str ''clear''",
      THEN conjunct2, THEN conjunct2]
  note c = event_arguments_never_empty[of connected "str ''^^clear()''" "[]", THEN conjunct1]
  have "list_all (\<lambda>e. snd e \<noteq> [])
     (emitted (drop (length (trace connected))
        (trace (snd (process_line (str ''^^clear()'') connected)))))"
    using c by (simp only: list_all_iff)
  then show ?thesis using a b h k by (simp add: r e)
qed

end
